theory Spec2Isabelle
  imports Main "HOL-Library.Char_ord" "HOL-Library.List_Lexorder" "HOL-Library.Sublist"
    "HOL-Library.Word"
begin

section \<open>Strings\<close>

text \<open>
  A \<open>QString\<close> is modelled as a \<^typ>\<open>string\<close>: one \<^typ>\<open>char\<close> per \<open>QChar\<close>, with the
  code points 0 to 255.  The characters the source names are written by code point where the
  concrete syntax of strings gets in the way.
\<close>

definition LF :: char where "LF = CHR 0x0A"
definition CR :: char where "CR = CHR 0x0D"
definition hash :: char where "hash = CHR 0x23"
definition equals :: char where "equals = CHR 0x3D"
definition squote :: char where "squote = CHR 0x27"
definition dquote :: char where "dquote = CHR 0x22"
definition backslash :: char where "backslash = CHR 0x5C"

text \<open>\<open>QChar::isSpace\<close>: the space, the controls 9 to 13, and beyond ASCII the next-line
  control and the no-break space (the only separators below 256).\<close>

definition isSpace :: "char \<Rightarrow> bool" where
  "isSpace c = (let u = (of_char c :: nat) in
      u = 0x20 \<or> (0x09 \<le> u \<and> u \<le> 0x0D) \<or> u = 0x85 \<or> u = 0xA0)"

text \<open>\<open>QString::trimmed\<close> removes whitespace from the start and from the end.\<close>

definition trimmed :: "string \<Rightarrow> string" where
  "trimmed s = rev (dropWhile isSpace (rev (dropWhile isSpace s)))"

text \<open>\<open>QString::startsWith(QChar)\<close>.\<close>

fun startsWith :: "string \<Rightarrow> char \<Rightarrow> bool" where
  "startsWith [] c = False"
| "startsWith (x # xs) c = (x = c)"

text \<open>\<open>QString::split\<close> at a character, keeping empty parts: a string with \<open>n\<close> separators
  has \<open>n + 1\<close> fields.\<close>

fun split_str :: "char \<Rightarrow> string \<Rightarrow> string list" where
  "split_str sep [] = [[]]"
| "split_str sep (c # cs) =
     (if c = sep then [] # split_str sep cs
      else (case split_str sep cs of
              [] \<Rightarrow> [[c]]
            | f # fs \<Rightarrow> (c # f) # fs))"

fun join_str :: "char \<Rightarrow> string list \<Rightarrow> string" where
  "join_str sep [] = []"
| "join_str sep [f] = f"
| "join_str sep (f # g # fs) = f @ sep # join_str sep (g # fs)"

text \<open>
  \<open>QString::section(sep, start, end)\<close> with the default flags: the fields \<open>start\<close> to \<open>end\<close>,
  joined by the separator; a negative index counts from the last field, and \<open>end\<close> defaults
  to \<open>-1\<close>.
\<close>

definition section_str :: "string \<Rightarrow> char \<Rightarrow> int \<Rightarrow> int \<Rightarrow> string" where
  "section_str s sep start end =
     (let sections = split_str sep s;
          sectionsSize = int (length sections);
          start' = (if start < 0 then start + sectionsSize else start);
          end' = (if end < 0 then end + sectionsSize else end)
      in if start' \<ge> sectionsSize \<or> end' < 0 \<or> start' > end' then []
         else join_str sep (take (nat (end' - max start' 0 + 1)) (drop (nat start') sections)))"

datatype error =
    AtOutOfRange      \<comment> \<open>\<open>QString::at\<close> called with an index outside \<open>0 \<le> i < size()\<close>\<close>
  | NullMountStream   \<comment> \<open>\<open>getmntent_r\<close> called on the null stream of a failed \<open>setmntent\<close>\<close>

text \<open>
  \<open>QString::at(i)\<close> requires \<open>0 \<le> i < size()\<close> and asserts it (\<open>Q_ASSERT\<close>); the call
  outside that range is the error \<^const>\<open>AtOutOfRange\<close>.
\<close>

definition at_str :: "string \<Rightarrow> int \<Rightarrow> error + char" where
  "at_str s i = (if 0 \<le> i \<and> i < int (length s) then Inr (s ! nat i) else Inl AtOutOfRange)"

text \<open>\<open>QString::mid(position, n)\<close>: \<open>n\<close> characters from \<open>position\<close>; a negative \<open>n\<close>, or one
  that reaches past the end, gives everything from \<open>position\<close>.\<close>

definition mid_str :: "string \<Rightarrow> int \<Rightarrow> int \<Rightarrow> string" where
  "mid_str s position n =
     (let size = int (length s) in
      if position > size then []
      else if position < 0 then
        (if n < 0 \<or> n + position \<ge> size then s
         else if n + position \<le> 0 then []
         else take (nat (n + position)) s)
      else if n < 0 \<or> n > size - position then drop (nat position) s
      else take (nat n) (drop (nat position) s))"


section \<open>Regular expressions\<close>

text \<open>
  The two patterns of the source are values of a small type of regular expressions, matched
  by derivatives.  \<open>Sym p\<close> is one character of the class \<open>p\<close>.
\<close>

datatype regexp =
    Zero
  | One
  | Sym "char \<Rightarrow> bool"
  | Alt regexp regexp
  | Seq regexp regexp
  | Star regexp

definition Plus :: "regexp \<Rightarrow> regexp" where
  "Plus r = Seq r (Star r)"

fun nullable :: "regexp \<Rightarrow> bool" where
  "nullable Zero = False"
| "nullable One = True"
| "nullable (Sym p) = False"
| "nullable (Alt r s) = (nullable r \<or> nullable s)"
| "nullable (Seq r s) = (nullable r \<and> nullable s)"
| "nullable (Star r) = True"

fun derivative :: "char \<Rightarrow> regexp \<Rightarrow> regexp" where
  "derivative c Zero = Zero"
| "derivative c One = Zero"
| "derivative c (Sym p) = (if p c then One else Zero)"
| "derivative c (Alt r s) = Alt (derivative c r) (derivative c s)"
| "derivative c (Seq r s) =
     (if nullable r then Alt (Seq (derivative c r) s) (derivative c s)
      else Seq (derivative c r) s)"
| "derivative c (Star r) = Seq (derivative c r) (Star r)"

text \<open>\<open>QRegExp::exactMatch\<close>: the pattern matches the whole string.\<close>

fun exactMatch :: "regexp \<Rightarrow> string \<Rightarrow> bool" where
  "exactMatch r [] = nullable r"
| "exactMatch r (c # cs) = exactMatch (derivative c r) cs"

text \<open>The words of a regular expression, for reasoning about \<^const>\<open>exactMatch\<close>.\<close>

inductive_set star :: "string set \<Rightarrow> string set" for A :: "string set" where
  star_nil: "[] \<in> star A"
| star_app: "u \<in> A \<Longrightarrow> v \<in> star A \<Longrightarrow> u @ v \<in> star A"

fun lang :: "regexp \<Rightarrow> string set" where
  "lang Zero = {}"
| "lang One = {[]}"
| "lang (Sym p) = {[c] | c. p c}"
| "lang (Alt r s) = lang r \<union> lang s"
| "lang (Seq r s) = {u @ v | u v. u \<in> lang r \<and> v \<in> lang s}"
| "lang (Star r) = star (lang r)"


section \<open>The release file parser\<close>

definition isLetterOrUnderscore :: "char \<Rightarrow> bool" where
  "isLetterOrUnderscore c =
     ((CHR ''a'' \<le> c \<and> c \<le> CHR ''z'') \<or> (CHR ''A'' \<le> c \<and> c \<le> CHR ''Z'') \<or> c = CHR ''_'')"

definition isWordChar :: "char \<Rightarrow> bool" where
  "isWordChar c =
     ((CHR ''a'' \<le> c \<and> c \<le> CHR ''z'') \<or> (CHR ''A'' \<le> c \<and> c \<le> CHR ''Z'')
      \<or> (CHR ''0'' \<le> c \<and> c \<le> CHR ''9'') \<or> c = CHR ''_'')"

text \<open>The key pattern of the source, \<^verbatim>\<open>[a-zA-Z_]+[a-zA-Z0-9_]*\<close>.\<close>

definition keyPattern :: regexp where
  "keyPattern = Seq (Plus (Sym isLetterOrUnderscore)) (Star (Sym isWordChar))"

text \<open>
  The escape pattern of the source, a backslash and then \<^verbatim>\<open>(.)\<close>, group 1.  With no
  pattern option set, the dot of \<open>QRegularExpression\<close> matches every character but a
  newline, here the line feed.
\<close>

definition dot :: "char \<Rightarrow> bool" where
  "dot c = (c \<noteq> LF)"

definition escapePattern :: regexp where
  "escapePattern = Seq (Sym (\<lambda>c. c = backslash)) (Sym dot)"

text \<open>
  \<open>value.replace(QRegularExpression("\\\\(.)"), "\\1")\<close>: the matches are found from left to
  right, each search starting behind the previous match; a match is two characters long and
  is replaced by its group 1, the second of them.
\<close>

fun replaceEscapes :: "string \<Rightarrow> string" where
  "replaceEscapes (c # d # rest) =
     (if exactMatch escapePattern [c, d] then d # replaceEscapes rest
      else c # replaceEscapes (d # rest))"
| "replaceEscapes s = s"

text \<open>What one pass of the loop body does with a line.\<close>

datatype outcome =
    Comment                 \<comment> \<open>the line starts with \<open>#\<close>\<close>
  | InvalidKey              \<comment> \<open>warning "Invalid key in input line", \<open>continue\<close>\<close>
  | QuotingError            \<comment> \<open>warning "Quoting error in input line", \<open>continue\<close>\<close>
  | Assign string string    \<comment> \<open>\<open>result[key] = value\<close>\<close>

definition parseLine :: "string \<Rightarrow> error + outcome" where
  "parseLine line =
     (if startsWith line hash then Inr Comment
      else
        let key = section_str line equals 0 0;
            val = trimmed (section_str line equals 1 (-1))
        in if \<not> exactMatch keyPattern key then Inr InvalidKey
           else
             (case at_str val 0 of
                Inl e \<Rightarrow> Inl e
              | Inr first \<Rightarrow>
                  if first = squote \<or> first = dquote then
                    (case at_str val (int (length val) - 1) of
                       Inl e \<Rightarrow> Inl e
                     | Inr final \<Rightarrow>
                         if first \<noteq> final then Inr QuotingError
                         else Inr (Assign key
                                (replaceEscapes (mid_str val 1 (int (length val) - 2)))))
                  else Inr (Assign key (replaceEscapes val))))"

text \<open>The \<open>while\<close> loop over the lines, with the \<open>QMap\<close> it fills.\<close>

fun parseLines :: "(string \<rightharpoonup> string) \<Rightarrow> string list \<Rightarrow> error + (string \<rightharpoonup> string)" where
  "parseLines result [] = Inr result"
| "parseLines result (line # rest) =
     (case parseLine line of
        Inl e \<Rightarrow> Inl e
      | Inr (Assign key val) \<Rightarrow> parseLines (result(key \<mapsto> val)) rest
      | Inr _ \<Rightarrow> parseLines result rest)"

text \<open>
  \<open>QTextStream::readLine\<close> until \<open>atEnd\<close>: a line ends at a line feed, which is not part of
  it, nor is a carriage return right before that line feed; text after the last line feed
  is a line of its own.
\<close>

function readLines :: "string \<Rightarrow> string list" where
  "readLines [] = []"
| "readLines (c # cs) =
     (let line = takeWhile (\<lambda>x. x \<noteq> LF) (c # cs);
          rest = dropWhile (\<lambda>x. x \<noteq> LF) (c # cs)
      in (if rest \<noteq> [] \<and> line \<noteq> [] \<and> last line = CR then butlast line else line)
         # readLines (drop 1 rest))"
  by pat_completeness auto
termination
  by (relation "measure length")
     (auto simp: less_Suc_eq_le intro: le_trans [OF diff_le_self length_dropWhile_le])

text \<open>A file as \<open>QFile\<close> finds it: missing, there but not to be opened, or open with its text.\<close>

datatype qfile = Missing | Unreadable | Text string

type_synonym filesystem = "string \<Rightarrow> qfile"

definition parseReleaseFile :: "filesystem \<Rightarrow> string \<Rightarrow> error + (string \<rightharpoonup> string)" where
  "parseReleaseFile fs filename =
     (case fs filename of
        Text content \<Rightarrow> parseLines Map.empty (readLines content)
      | _ \<Rightarrow> Inr Map.empty)"


section \<open>The accessors\<close>

text \<open>\<open>QMap::operator[]\<close> on the temporary that \<open>parseReleaseFile\<close> returns: the value of
  the key, or a default-constructed (empty) string where the key is absent.\<close>

definition index_map :: "(string \<rightharpoonup> string) \<Rightarrow> string \<Rightarrow> string" where
  "index_map m key = (case m key of None \<Rightarrow> [] | Some v \<Rightarrow> v)"

definition softwareVersion :: "filesystem \<Rightarrow> error + string" where
  "softwareVersion fs =
     (case parseReleaseFile fs ''/etc/os-release'' of
        Inl e \<Rightarrow> Inl e
      | Inr m \<Rightarrow> Inr (index_map m ''VERSION''))"

definition adaptationVersion :: "filesystem \<Rightarrow> error + string" where
  "adaptationVersion fs =
     (case parseReleaseFile fs ''/etc/hw-release'' of
        Inl e \<Rightarrow> Inl e
      | Inr m \<Rightarrow> Inr (index_map m ''VERSION_ID''))"

text \<open>\<open>serial\<close> does not look at what \<open>open\<close> returns: \<open>readAll\<close> on a file that exists and
  did not open reads nothing.\<close>

definition serial :: "filesystem \<Rightarrow> string" where
  "serial fs =
     (case fs ''/config/serial/serial.txt'' of
        Missing \<Rightarrow> []
      | Unreadable \<Rightarrow> trimmed []
      | Text content \<Rightarrow> trimmed content)"


section \<open>Disk usage\<close>

text \<open>The two fields of \<open>struct mntent\<close> that the source reads.\<close>

record mntent =
  mnt_fsname :: string
  mnt_dir :: string

text \<open>
  The \<open>QMap\<close> of devices is iterated in the order of its keys, so it is modelled as an
  association list kept in ascending key order.  \<open>assign_qmap\<close> is \<open>devices[key] = v\<close>.
\<close>

type_synonym qmap = "(string \<times> string) list"

fun assign_qmap :: "qmap \<Rightarrow> string \<Rightarrow> string \<Rightarrow> qmap" where
  "assign_qmap [] key v = [(key, v)]"
| "assign_qmap ((k, w) # m) key v =
     (if key < k then (key, v) # (k, w) # m
      else if key = k then (k, v) # m
      else (k, w) # assign_qmap m key v)"

text \<open>\<open>devices[key]\<close> read on the non-constant map: an absent key is inserted with an empty
  string, which is returned.\<close>

definition index_qmap :: "qmap \<Rightarrow> string \<Rightarrow> string \<times> qmap" where
  "index_qmap m key =
     (case map_of m key of
        Some v \<Rightarrow> (v, m)
      | None \<Rightarrow> ([], assign_qmap m key []))"

definition keys_qmap :: "qmap \<Rightarrow> string list" where
  "keys_qmap m = map fst m"

text \<open>The \<open>getmntent_r\<close> loop.\<close>

fun readMounts :: "qmap \<Rightarrow> mntent list \<Rightarrow> qmap" where
  "readMounts devices [] = devices"
| "readMounts devices (entry # entries) =
     readMounts (assign_qmap devices (mnt_dir entry) (mnt_fsname entry)) entries"

text \<open>The \<open>foreach\<close> over \<open>devices.keys()\<close>, a list taken once, before the loop; \<open>&&\<close> reads
  the map only for a candidate.\<close>

fun addMountpoints ::
  "string list \<Rightarrow> string list \<Rightarrow> qmap \<Rightarrow> string list \<Rightarrow> qmap \<times> string list" where
  "addMountpoints candidates [] devices paths = (devices, paths)"
| "addMountpoints candidates (mountpoint # keys) devices paths =
     (if mountpoint \<in> set candidates then
        (case index_qmap devices mountpoint of (dev, devices1) \<Rightarrow>
         case index_qmap devices1 ''/'' of (root, devices2) \<Rightarrow>
           addMountpoints candidates keys devices2
             (if dev \<noteq> root then paths @ [mountpoint] else paths))
      else addMountpoints candidates keys devices paths)"

definition candidates :: "string list" where
  "candidates = [''/home'']"

text \<open>The map \<open>devices\<close> when the \<open>getmntent_r\<close> loop is over.\<close>

definition mountedDevices :: "mntent list \<Rightarrow> qmap" where
  "mountedDevices entries = readMounts [] entries"

text \<open>The value of \<open>paths\<close> when the first \<open>foreach\<close> is over.\<close>

definition workingPaths :: "mntent list \<Rightarrow> string list" where
  "workingPaths entries =
     (let devices = mountedDevices entries
      in snd (addMountpoints candidates (keys_qmap devices) devices [''/'']))"

type_synonym qlonglong = "64 word"

record storage =
  availableDiskSpace :: "string \<Rightarrow> qlonglong"
  totalDiskSpace :: "string \<Rightarrow> qlonglong"

record row =
  storageType :: string
  path :: string
  available :: qlonglong
  total :: qlonglong

definition makeRow :: "storage \<Rightarrow> string list \<Rightarrow> string \<Rightarrow> row" where
  "makeRow sysinfo paths p =
     \<lparr> storageType = (if length paths = 1 then ''mass''
                      else if p = ''/'' then ''system'' else ''user''),
       path = p,
       available = availableDiskSpace sysinfo p,
       total = totalDiskSpace sysinfo p \<rparr>"

text \<open>The mount table is \<open>None\<close> where \<open>setmntent\<close> returns a null stream, which the source
  hands to \<open>getmntent_r\<close> unchecked.\<close>

definition diskUsageModel :: "storage \<Rightarrow> mntent list option \<Rightarrow> error + row list" where
  "diskUsageModel sysinfo mtab =
     (case mtab of
        None \<Rightarrow> Inl NullMountStream
      | Some entries \<Rightarrow>
          (let paths = workingPaths entries in Inr (map (makeRow sysinfo paths) paths)))"


section \<open>The specification's notions\<close>

text \<open>The identifier rule in the specification's words: one character of \<^verbatim>\<open>[a-zA-Z_]\<close>,
  then any number of \<^verbatim>\<open>[a-zA-Z0-9_]\<close>, as a whole match.\<close>

fun isIdentifier :: "string \<Rightarrow> bool" where
  "isIdentifier [] = False"
| "isIdentifier (c # cs) = (isLetterOrUnderscore c \<and> list_all isWordChar cs)"

text \<open>Unescaping in the specification's words: a backslash and the character after it
  become that character, once, from left to right, without overlap.\<close>

fun unescape_spec :: "string \<Rightarrow> string" where
  "unescape_spec [] = []"
| "unescape_spec [c] = [c]"
| "unescape_spec (c # x # rest) =
     (if c = backslash then x # unescape_spec rest else c # unescape_spec (x # rest))"

text \<open>The key of a line is the text before its first equals sign, the raw value the text
  after it.\<close>

definition keyOf :: "string \<Rightarrow> string" where
  "keyOf line = takeWhile (\<lambda>c. c \<noteq> equals) line"

definition rawValueOf :: "string \<Rightarrow> string" where
  "rawValueOf line = drop 1 (dropWhile (\<lambda>c. c \<noteq> equals) line)"

text \<open>Trimming in the specification's words: only the whitespace at the end goes.\<close>

definition trimTrailing_spec :: "string \<Rightarrow> string" where
  "trimTrailing_spec s = rev (dropWhile isSpace (rev s))"

text \<open>Quote handling in the specification's words: a value that starts with a quote loses
  its first and its last character.\<close>

definition quotesHandled :: "string \<Rightarrow> string" where
  "quotesHandled v =
     (if v \<noteq> [] \<and> (hd v = squote \<or> hd v = dquote) then butlast (tl v) else v)"

text \<open>The device source of a mountpoint in the map of devices, empty where the map has no
  such key (\<open>QMap::value\<close>).\<close>

definition value_qmap :: "qmap \<Rightarrow> string \<Rightarrow> string" where
  "value_qmap m key = (case map_of m key of None \<Rightarrow> [] | Some v \<Rightarrow> v)"

text \<open>A mountpoint is on a device of its own when it is a key of the map of devices and its
  device source differs from that of the root.\<close>

definition onSeparateDevice :: "mntent list \<Rightarrow> string \<Rightarrow> bool" where
  "onSeparateDevice entries mp \<longleftrightarrow>
     mp \<in> set (keys_qmap (mountedDevices entries)) \<and>
     value_qmap (mountedDevices entries) mp \<noteq> value_qmap (mountedDevices entries) ''/''"

text \<open>The rows the specification names, with the sizes that \<open>QStorageInfo\<close> reports.\<close>

definition rowOf :: "storage \<Rightarrow> string \<Rightarrow> string \<Rightarrow> row" where
  "rowOf sysinfo ty p =
     \<lparr> storageType = ty, path = p,
       available = availableDiskSpace sysinfo p, total = totalDiskSpace sysinfo p \<rparr>"


section \<open>Matching by derivatives is membership in the language\<close>

lemma nullable_lang: "nullable r \<longleftrightarrow> [] \<in> lang r"
  by (induction r) (auto intro: star.star_nil)

lemma star_cons_split:
  assumes "w \<in> star A" and "w = c # t"
  shows "\<exists>u v. t = u @ v \<and> c # u \<in> A \<and> v \<in> star A"
  using assms
proof (induction rule: star.induct)
  case star_nil
  then show ?case by simp
next
  case (star_app u v)
  show ?case
  proof (cases u)
    case Nil
    with star_app show ?thesis by simp
  next
    case (Cons a u')
    with star_app.prems have "a = c" and "t = u' @ v" by simp_all
    with Cons star_app.hyps show ?thesis by blast
  qed
qed

lemma star_cons_iff:
  "c # t \<in> star A \<longleftrightarrow> (\<exists>u v. t = u @ v \<and> c # u \<in> A \<and> v \<in> star A)"
proof
  assume "c # t \<in> star A"
  then show "\<exists>u v. t = u @ v \<and> c # u \<in> A \<and> v \<in> star A"
    by (rule star_cons_split) simp
next
  assume "\<exists>u v. t = u @ v \<and> c # u \<in> A \<and> v \<in> star A"
  then obtain u v where "t = u @ v" "c # u \<in> A" "v \<in> star A" by blast
  then show "c # t \<in> star A"
    using star.star_app [of "c # u" A v] by simp
qed

lemma lang_Seq_iff:
  "w \<in> lang (Seq r s) \<longleftrightarrow> (\<exists>u v. w = u @ v \<and> u \<in> lang r \<and> v \<in> lang s)"
  by auto

lemma lang_Seq_cons:
  "c # w \<in> lang (Seq r s) \<longleftrightarrow>
     ([] \<in> lang r \<and> c # w \<in> lang s) \<or>
     (\<exists>u v. w = u @ v \<and> c # u \<in> lang r \<and> v \<in> lang s)"
  unfolding lang_Seq_iff Cons_eq_append_conv by blast

lemma lang_derivative: "w \<in> lang (derivative c r) \<longleftrightarrow> c # w \<in> lang r"
proof (induction r arbitrary: w)
  case (Seq r s)
  show ?case
    unfolding lang_Seq_cons using Seq by (auto simp: nullable_lang)
next
  case (Star r)
  then show ?case by (auto simp: star_cons_iff)
qed auto

lemma exactMatch_lang: "exactMatch r w \<longleftrightarrow> w \<in> lang r"
  by (induction w arbitrary: r) (simp_all add: nullable_lang lang_derivative)

lemma star_class: "w \<in> star {[c] | c. p c} \<longleftrightarrow> list_all p w"
proof
  assume "w \<in> star {[c] | c. p c}"
  then show "list_all p w" by (induction rule: star.induct) auto
next
  assume "list_all p w"
  then show "w \<in> star {[c] | c. p c}"
  proof (induction w)
    case Nil
    show ?case by (rule star.star_nil)
  next
    case (Cons a w)
    then have "[a] \<in> {[c] | c. p c}" and "w \<in> star {[c] | c. p c}" by simp_all
    then have "[a] @ w \<in> star {[c] | c. p c}" by (rule star.star_app)
    then show ?case by simp
  qed
qed

lemma plus_class: "w \<in> lang (Plus (Sym p)) \<longleftrightarrow> w \<noteq> [] \<and> list_all p w"
proof -
  have "w \<in> lang (Plus (Sym p)) \<longleftrightarrow> (\<exists>c v. w = c # v \<and> p c \<and> list_all p v)"
    unfolding Plus_def lang_Seq_iff
    by (simp add: star_class) (metis append_Cons append_Nil)
  also have "\<dots> \<longleftrightarrow> w \<noteq> [] \<and> list_all p w"
    by (cases w) auto
  finally show ?thesis .
qed


section \<open>The key pattern and the identifier rule\<close>

lemma letter_is_word: "isLetterOrUnderscore c \<Longrightarrow> isWordChar c"
  by (auto simp: isLetterOrUnderscore_def isWordChar_def)

lemma keyPattern_lang:
  "w \<in> lang keyPattern \<longleftrightarrow>
     (\<exists>u v. w = u @ v \<and> u \<noteq> [] \<and> list_all isLetterOrUnderscore u \<and> list_all isWordChar v)"
  unfolding keyPattern_def lang_Seq_iff plus_class by (simp add: star_class)

text \<open>The pattern of the source, with \<open>+\<close> on its first class, accepts the same keys as the
  pattern of the specification.\<close>

lemma keyPattern_isIdentifier: "exactMatch keyPattern key \<longleftrightarrow> isIdentifier key"
proof
  assume "exactMatch keyPattern key"
  then obtain u v where uv: "key = u @ v" "u \<noteq> []"
      "list_all isLetterOrUnderscore u" "list_all isWordChar v"
    by (auto simp: exactMatch_lang keyPattern_lang)
  then obtain c u' where "u = c # u'" by (cases u) auto
  with uv show "isIdentifier key"
    by (auto simp: list_all_iff intro: letter_is_word)
next
  assume "isIdentifier key"
  then obtain c cs where "key = [c] @ cs" "isLetterOrUnderscore c" "list_all isWordChar cs"
    by (cases key) auto
  then have "\<exists>u v. key = u @ v \<and> u \<noteq> [] \<and> list_all isLetterOrUnderscore u
      \<and> list_all isWordChar v"
    by (intro exI [of _ "[c]"] exI [of _ cs]) simp
  then show "exactMatch keyPattern key" by (simp add: exactMatch_lang keyPattern_lang)
qed

text \<open>A match of the escape pattern is two characters long, as \<^const>\<open>replaceEscapes\<close> has it.\<close>

lemma escapePattern_length: "exactMatch escapePattern w \<Longrightarrow> length w = 2"
  by (auto simp: exactMatch_lang escapePattern_def)


section \<open>Sections, characters and substrings of a line\<close>

lemma split_str_not_Nil: "split_str sep s \<noteq> []"
  by (induction s) (auto split: list.splits)

lemma hd_split_str: "hd (split_str sep s) = takeWhile (\<lambda>c. c \<noteq> sep) s"
  by (induction s) (auto split: list.splits simp: split_str_not_Nil)

lemma join_split_str: "join_str sep (split_str sep s) = s"
proof (induction s)
  case Nil
  show ?case by simp
next
  case (Cons a s)
  then show ?case
    by (cases "split_str sep s"; cases "tl (split_str sep s)")
       (auto simp: split_str_not_Nil)
qed

lemma join_tl_split_str:
  "join_str sep (tl (split_str sep s)) = drop 1 (dropWhile (\<lambda>c. c \<noteq> sep) s)"
proof (induction s)
  case Nil
  show ?case by simp
next
  case (Cons c s)
  show ?case
  proof (cases "c = sep")
    case True
    then show ?thesis by (simp add: join_split_str)
  next
    case False
    with Cons show ?thesis by (auto split: list.splits simp: split_str_not_Nil)
  qed
qed

lemma section_key: "section_str line equals 0 0 = keyOf line"
proof -
  obtain f fs where "split_str equals line = f # fs"
    by (cases "split_str equals line") (auto simp: split_str_not_Nil)
  then show ?thesis
    using hd_split_str [of equals line] by (simp add: section_str_def Let_def keyOf_def)
qed

lemma section_value: "section_str line equals 1 (- 1) = rawValueOf line"
proof -
  obtain f fs where fs: "split_str equals line = f # fs"
    by (cases "split_str equals line") (auto simp: split_str_not_Nil)
  then have "join_str equals fs = rawValueOf line"
    using join_tl_split_str [of equals line] by (simp add: rawValueOf_def)
  with fs show ?thesis
    by (cases fs) (auto simp: section_str_def Let_def)
qed

lemma at_str_first: "v \<noteq> [] \<Longrightarrow> at_str v 0 = Inr (hd v)"
  by (cases v) (simp_all add: at_str_def)

lemma at_str_final: "v \<noteq> [] \<Longrightarrow> at_str v (int (length v) - 1) = Inr (last v)"
  by (simp add: at_str_def last_conv_nth nat_diff_distrib')

lemma at_str_empty: "at_str [] i = Inl AtOutOfRange"
  by (simp add: at_str_def)

lemma mid_str_inner: "v \<noteq> [] \<Longrightarrow> mid_str v 1 (int (length v) - 2) = butlast (tl v)"
  by (cases v) (auto simp: mid_str_def Let_def butlast_conv_take nat_diff_distrib')

text \<open>The loop body, branch by branch, in terms of the key and the raw value of the line.\<close>

lemma parseLine_eq:
  "parseLine line =
     (if startsWith line hash then Inr Comment
      else if \<not> isIdentifier (keyOf line) then Inr InvalidKey
      else if trimmed (rawValueOf line) = [] then Inl AtOutOfRange
      else if hd (trimmed (rawValueOf line)) \<noteq> squote
            \<and> hd (trimmed (rawValueOf line)) \<noteq> dquote
        then Inr (Assign (keyOf line) (replaceEscapes (trimmed (rawValueOf line))))
      else if hd (trimmed (rawValueOf line)) \<noteq> last (trimmed (rawValueOf line))
        then Inr QuotingError
      else Inr (Assign (keyOf line)
             (replaceEscapes (butlast (tl (trimmed (rawValueOf line)))))))"
  by (simp add: parseLine_def Let_def section_key section_value
      keyPattern_isIdentifier at_str_first at_str_final at_str_empty mid_str_inner)

lemma parseLine_Assign:
  assumes "parseLine line = Inr (Assign key v)"
  shows "key = keyOf line \<and> isIdentifier key \<and> trimmed (rawValueOf line) \<noteq> []
         \<and> v = replaceEscapes (quotesHandled (trimmed (rawValueOf line)))"
  using assms unfolding parseLine_eq quotesHandled_def
  by (auto split: if_splits)

lemmas char_defs = LF_def CR_def hash_def equals_def squote_def dquote_def backslash_def

lemmas line_defs = keyOf_def rawValueOf_def trimmed_def isSpace_def
  isLetterOrUnderscore_def isWordChar_def escapePattern_def dot_def quotesHandled_def


section \<open>Keys of the mapping\<close>

lemma parseLines_keys:
  "parseLines result lines = Inr m \<Longrightarrow> \<forall>k \<in> dom result. isIdentifier k
     \<Longrightarrow> \<forall>k \<in> dom m. isIdentifier k"
proof (induction lines arbitrary: result)
  case Nil
  then show ?case by simp
next
  case (Cons line lines)
  show ?case
  proof (cases "parseLine line")
    case (Inl e)
    with Cons.prems show ?thesis by simp
  next
    case (Inr out)
    show ?thesis
    proof (cases out)
      case (Assign key v)
      with Inr have "isIdentifier key" using parseLine_Assign by blast
      with Cons.prems(2) have "\<forall>k \<in> dom (result(key \<mapsto> v)). isIdentifier k" by simp
      moreover from Cons.prems(1) Inr Assign
      have "parseLines (result(key \<mapsto> v)) lines = Inr m" by simp
      ultimately show ?thesis by (rule Cons.IH [rotated])
    next
      case Comment
      with Inr Cons show ?thesis by simp
    next
      case InvalidKey
      with Inr Cons show ?thesis by simp
    next
      case QuotingError
      with Inr Cons show ?thesis by simp
    qed
  qed
qed

text \<open>
  Claim C8.  A line that is not a comment and whose key, the text before its first equals
  sign, is not an identifier of the form \<^verbatim>\<open>[a-zA-Z_][a-zA-Z0-9_]*\<close> is discarded as an
  invalid key, and the loop goes on with the next line and the mapping as it was.  Whatever
  the file, every key of a mapping that \<open>parseReleaseFile\<close> returns is such an identifier.
\<close>

theorem C8_invalid_key_discarded:
  "(\<not> startsWith line hash \<and> \<not> isIdentifier (keyOf line) \<longrightarrow>
      parseLine line = Inr InvalidKey \<and>
      parseLines result (line # rest) = parseLines result rest)
   \<and> (parseReleaseFile fs filename = Inr m \<longrightarrow> (\<forall>key \<in> dom m. isIdentifier key))"
proof (intro conjI impI)
  assume bad: "\<not> startsWith line hash \<and> \<not> isIdentifier (keyOf line)"
  then show discarded: "parseLine line = Inr InvalidKey" by (simp add: parseLine_eq)
  then show "parseLines result (line # rest) = parseLines result rest" by simp
next
  assume parsed: "parseReleaseFile fs filename = Inr m"
  show "\<forall>key \<in> dom m. isIdentifier key"
  proof (cases "fs filename")
    case (Text content)
    with parsed have "parseLines Map.empty (readLines content) = Inr m"
      by (simp add: parseReleaseFile_def)
    then show ?thesis by (rule parseLines_keys) simp
  next
    case Missing
    with parsed show ?thesis by (auto simp: parseReleaseFile_def)
  next
    case Unreadable
    with parsed show ?thesis by (auto simp: parseReleaseFile_def)
  qed
qed

theorem C8_invalid_key_discarded_witness:
  "\<not> startsWith ''BAD-KEY=x'' hash \<and> \<not> isIdentifier (keyOf ''BAD-KEY=x'')
   \<and> parseLine ''BAD-KEY=x'' = Inr InvalidKey
   \<and> parseLines Map.empty [''BAD-KEY=x'', ''ID=sailfishos'']
       = parseLines Map.empty [''ID=sailfishos'']
   \<and> parseReleaseFile
        (\<lambda>name. Text (''9LIVES=x'' @ [LF] @ ''BAD-KEY=x'' @ [LF] @ ''ID=sailfishos'' @ [LF]))
        ''/etc/os-release'' = Inr [''ID'' \<mapsto> ''sailfishos'']
   \<and> dom [''ID'' \<mapsto> ''sailfishos''] = {''ID''} \<and> isIdentifier ''ID''"
  using C8_invalid_key_discarded [of "''BAD-KEY=x''" Map.empty "[''ID=sailfishos'']"
      "\<lambda>name. Text (''9LIVES=x'' @ [LF] @ ''BAD-KEY=x'' @ [LF] @ ''ID=sailfishos'' @ [LF])"
      "''/etc/os-release''" "[''ID'' \<mapsto> ''sailfishos'']"]
  by (simp add: parseReleaseFile_def parseLine_eq char_defs line_defs)


section \<open>Empty values\<close>

text \<open>The source reads \<open>value.at(0)\<close> whatever the size of the trimmed value: with an
  identifier for its key and nothing but whitespace for its value, a line takes the loop
  body into \<open>QString::at\<close> outside its range.\<close>

lemma parseLine_empty_value:
  "\<not> startsWith line hash \<Longrightarrow> isIdentifier (keyOf line) \<Longrightarrow> trimmed (rawValueOf line) = []
     \<Longrightarrow> parseLine line = Inl AtOutOfRange"
  by (simp add: parseLine_eq)

text \<open>
  Claim C1 says that a line with an identifier for its key and an empty trimmed value, such
  as \<^verbatim>\<open>EMPTY=\<close> or a bare \<^verbatim>\<open>KEY\<close>, is stored with the empty string.  The source does not
  get that far: for both lines, and for the file of the specification's scenario, the
  outcome is the read of \<open>value.at(0)\<close> on an empty string.
\<close>

theorem C1_empty_value_out_of_range:
  "parseLine ''EMPTY='' = Inl AtOutOfRange
   \<and> parseLine ''KEY'' = Inl AtOutOfRange
   \<and> parseReleaseFile (\<lambda>name. Text ''EMPTY='') ''/etc/os-release'' = Inl AtOutOfRange
   \<and> parseReleaseFile
        (\<lambda>name. Text (''#comment'' @ [LF] @ ''VERSION='' @ [dquote] @ ''1.2.3'' @ [dquote, LF]
                       @ ''BAD-KEY=x'' @ [LF] @ ''EMPTY='' @ [LF]))
        ''/etc/os-release'' = Inl AtOutOfRange"
  by (simp add: parseReleaseFile_def parseLine_eq char_defs line_defs)


section \<open>Quoted values\<close>

text \<open>A value that opens with a quote and closes with the same character loses both; with
  any other last character the line is a quoting error.  The comparison is between the
  first and the last character, whatever the size of the value.\<close>

lemma parseLine_quoted:
  assumes "\<not> startsWith line hash" and "isIdentifier (keyOf line)"
    and "v = trimmed (rawValueOf line)" and "v \<noteq> []" and "hd v = squote \<or> hd v = dquote"
  shows "parseLine line =
           (if last v = hd v then Inr (Assign (keyOf line) (replaceEscapes (butlast (tl v))))
            else Inr QuotingError)"
  using assms by (auto simp: parseLine_eq)

text \<open>
  Claim C2 says that a value that is one quote character and nothing else is a quoting
  error, and its line absent from the mapping.  In the source the first and the last
  character of such a value are the same character, so the test for a quoting error does
  not fire; \<open>mid(1, -1)\<close> is the empty string, and the key is stored with it.
\<close>

theorem C2_lone_quote_stored:
  "parseLine (''KEY='' @ [dquote]) = Inr (Assign ''KEY'' [])
   \<and> parseLine (''KEY='' @ [squote]) = Inr (Assign ''KEY'' [])
   \<and> parseReleaseFile (\<lambda>name. Text (''KEY='' @ [squote])) ''/etc/os-release''
       = Inr [''KEY'' \<mapsto> []]"
  by (simp add: parseReleaseFile_def parseLine_eq char_defs line_defs)


section \<open>Trimming\<close>

lemma dropWhile_space_append:
  "list_all isSpace a \<Longrightarrow> dropWhile isSpace (a @ s) = dropWhile isSpace s"
  by (induction a) simp_all

lemma trimmed_both_ends:
  assumes "list_all isSpace a" and "list_all isSpace b"
    and "v \<noteq> [] \<longrightarrow> \<not> isSpace (hd v) \<and> \<not> isSpace (last v)"
  shows "trimmed (a @ v @ b) = v"
proof (cases v)
  case Nil
  have empty: "dropWhile isSpace (a @ v @ b) = []"
    using assms(1,2) Nil by (simp add: dropWhile_eq_Nil_conv list_all_iff)
  show ?thesis unfolding trimmed_def empty using Nil by simp
next
  case (Cons c w)
  with assms(3) have c: "\<not> isSpace c" and l: "\<not> isSpace (last (c # w))" by simp_all
  have "dropWhile isSpace (a @ v @ b) = v @ b"
    using assms(1) c Cons by (simp add: dropWhile_space_append)
  moreover have "dropWhile isSpace (rev (v @ b)) = rev v"
  proof -
    have "rev (v @ b) = rev b @ rev v" by simp
    moreover have "list_all isSpace (rev b)" using assms(2) by (simp add: list_all_iff)
    moreover have "dropWhile isSpace (rev v) = rev v"
      using l Cons by (simp add: dropWhile_eq_self_iff hd_rev del: rev.simps)
    ultimately show ?thesis by (simp add: dropWhile_space_append)
  qed
  ultimately show ?thesis by (simp add: trimmed_def)
qed

text \<open>With text \<open>v\<close> between whitespace in its raw value, a line that is not a comment and
  has an identifier for its key is stored with \<open>v\<close>, its escapes replaced (for a \<open>v\<close> that
  is not empty and does not start with a quote).\<close>

lemma parseLine_unquoted:
  assumes "list_all isSpace a" and "list_all isSpace b"
    and "v \<noteq> []" and "\<not> isSpace (hd v)" and "\<not> isSpace (last v)"
    and "\<not> startsWith line hash" and "isIdentifier (keyOf line)"
    and "rawValueOf line = a @ v @ b"
    and "hd v \<noteq> squote" and "hd v \<noteq> dquote"
  shows "trimmed (rawValueOf line) = v
         \<and> parseLine line = Inr (Assign (keyOf line) (replaceEscapes v))"
proof -
  have "trimmed (rawValueOf line) = v"
    using assms(1-5,8) by (simp add: trimmed_both_ends)
  with assms show ?thesis by (simp add: parseLine_eq)
qed

text \<open>
  Claim C5 says that only the whitespace at the end of the raw value is removed, as the
  comment in the source has it, and that the whitespace at its start reaches the stored
  value.  The source calls \<open>trimmed\<close>: for the line \<^verbatim>\<open>KEY=  a\<close> it stores \<open>a\<close>, where
  trimming the end alone leaves the two spaces in front.
\<close>

theorem C5_leading_whitespace_removed:
  "rawValueOf ''KEY=  a'' = ''  a''
   \<and> trimmed ''  a'' = ''a''
   \<and> trimTrailing_spec ''  a'' = ''  a''
   \<and> parseLine ''KEY=  a'' = Inr (Assign ''KEY'' ''a'')
   \<and> parseLine ''KEY=  a'' \<noteq> Inr (Assign ''KEY'' (trimTrailing_spec (rawValueOf ''KEY=  a'')))"
  by (simp add: parseLine_eq trimTrailing_spec_def char_defs line_defs)


section \<open>Escapes\<close>

text \<open>Where the dot matches every character of the value, the replacement of the source
  is the unescaping of the specification; and a line that \<open>readLine\<close> returns has no line
  feed for the dot to refuse.\<close>

lemma replaceEscapes_unescape: "LF \<notin> set v \<Longrightarrow> replaceEscapes v = unescape_spec v"
  by (induction v rule: unescape_spec.induct) (auto simp: escapePattern_def dot_def)

lemma readLines_no_LF: "line \<in> set (readLines s) \<Longrightarrow> LF \<notin> set line"
proof (induction s rule: readLines.induct)
  case 1
  then show ?case by simp
next
  case (2 c cs)
  let ?l = "takeWhile (\<lambda>x. x \<noteq> LF) (c # cs)"
  have l: "LF \<notin> set ?l" using set_takeWhileD by fastforce
  then have "LF \<notin> set (butlast ?l)" by (meson in_set_butlastD)
  with l 2 show ?case by (auto simp: Let_def split: if_splits)
qed

lemma set_trimmed: "set (trimmed s) \<subseteq> set s"
proof -
  have "set (trimmed s) \<subseteq> set (dropWhile isSpace s)"
    unfolding trimmed_def using set_dropWhileD by fastforce
  also have "\<dots> \<subseteq> set s" using set_dropWhileD by fastforce
  finally show ?thesis .
qed

lemma set_rawValueOf: "set (rawValueOf line) \<subseteq> set line"
  unfolding rawValueOf_def
  by (meson in_set_dropD set_dropWhileD subsetI)

lemma set_quotesHandled: "set (quotesHandled v) \<subseteq> set v"
  unfolding quotesHandled_def
  by (auto dest!: in_set_butlastD list.set_sel(2))

text \<open>
  Claim C9.  For every line of a file that ends in an assignment, the value stored is the
  value after quote handling with every backslash and the character after it replaced by
  that character, once, from left to right, without overlap.  The witness is the line
  \<^verbatim>\<open>KEY=a\"b\<close>, stored as \<^verbatim>\<open>a"b\<close>.
\<close>

theorem C9_escapes_replaced:
  assumes "line \<in> set (readLines content)" and "parseLine line = Inr (Assign key v)"
  shows "v = unescape_spec (quotesHandled (trimmed (rawValueOf line)))"
proof -
  have "LF \<notin> set line" using assms(1) by (rule readLines_no_LF)
  then have "LF \<notin> set (quotesHandled (trimmed (rawValueOf line)))"
    using set_quotesHandled set_trimmed set_rawValueOf by blast
  then show ?thesis
    using parseLine_Assign [OF assms(2)] by (simp add: replaceEscapes_unescape)
qed

theorem C9_escapes_replaced_witness:
  "''KEY=a'' @ [backslash, dquote] @ ''b''
     \<in> set (readLines (''KEY=a'' @ [backslash, dquote] @ ''b'' @ [LF]))
   \<and> parseLine (''KEY=a'' @ [backslash, dquote] @ ''b'')
       = Inr (Assign ''KEY'' (''a'' @ [dquote] @ ''b''))
   \<and> ''a'' @ [dquote] @ ''b''
       = unescape_spec
           (quotesHandled (trimmed (rawValueOf (''KEY=a'' @ [backslash, dquote] @ ''b''))))"
  using C9_escapes_replaced [of "''KEY=a'' @ [backslash, dquote] @ ''b''"
      "''KEY=a'' @ [backslash, dquote] @ ''b'' @ [LF]" "''KEY''" "''a'' @ [dquote] @ ''b''"]
  by (simp add: parseLine_eq char_defs line_defs)


section \<open>What the accessors return where data is missing\<close>

text \<open>A file that does not open gives the empty mapping, a missing serial file the empty
  string, and a mapping without the key the empty string.\<close>

lemma accessors_degrade:
  "(\<forall>content. fs filename \<noteq> Text content) \<longrightarrow> parseReleaseFile fs filename = Inr Map.empty"
  "fs ''/config/serial/serial.txt'' = Missing \<longrightarrow> serial fs = []"
  "parseReleaseFile fs ''/etc/os-release'' = Inr m \<and> m ''VERSION'' = None
     \<longrightarrow> softwareVersion fs = Inr []"
  "parseReleaseFile fs ''/etc/hw-release'' = Inr m \<and> m ''VERSION_ID'' = None
     \<longrightarrow> adaptationVersion fs = Inr []"
  by (auto simp: parseReleaseFile_def serial_def softwareVersion_def adaptationVersion_def
      index_map_def split: qfile.splits)

text \<open>
  Claim C7 says that no core operation has a fatal error path.  The three cases it lists
  are as it says (\<open>accessors_degrade\<close>), but two paths of the source do not end in a result:
  the read of \<open>value.at(0)\<close> on an empty value, which \<open>softwareVersion\<close> and
  \<open>adaptationVersion\<close> reach through \<open>parseReleaseFile\<close>, and \<open>getmntent_r\<close> on the null
  stream of a mount table that did not open in \<open>diskUsageModel\<close>.
\<close>

theorem C7_fatal_paths:
  "softwareVersion (\<lambda>name. Text (''NAME=Sailfish'' @ [LF] @ ''VERSION='' @ [LF]))
     = Inl AtOutOfRange
   \<and> adaptationVersion (\<lambda>name. Text (''VERSION_ID'' @ [LF])) = Inl AtOutOfRange
   \<and> diskUsageModel \<lparr> availableDiskSpace = (\<lambda>p. 0), totalDiskSpace = (\<lambda>p. 0) \<rparr> None
       = Inl NullMountStream"
  by (simp add: softwareVersion_def adaptationVersion_def diskUsageModel_def
      parseReleaseFile_def parseLine_eq char_defs line_defs)


section \<open>The map of devices and the working list of paths\<close>

lemma workingPaths_alt:
  "workingPaths entries =
     snd (addMountpoints candidates (keys_qmap (mountedDevices entries))
            (mountedDevices entries) [''/''])"
  by (simp add: workingPaths_def Let_def)

lemma map_of_assign:
  "map_of (assign_qmap m key v) k = (if k = key then Some v else map_of m k)"
  by (induction m key v rule: assign_qmap.induct) auto

lemma keys_assign: "set (keys_qmap (assign_qmap m key v)) = insert key (set (keys_qmap m))"
  by (induction m key v rule: assign_qmap.induct) (auto simp: keys_qmap_def)

lemma sorted_assign:
  "sorted_wrt (<) (keys_qmap m) \<Longrightarrow> sorted_wrt (<) (keys_qmap (assign_qmap m key v))"
proof (induction m key v rule: assign_qmap.induct)
  case (1 key v)
  show ?case by (simp add: keys_qmap_def)
next
  case (2 k w m key v)
  then show ?case
    using keys_assign [of m key v]
    by (auto simp: keys_qmap_def)
qed

lemma sorted_readMounts:
  "sorted_wrt (<) (keys_qmap m) \<Longrightarrow> sorted_wrt (<) (keys_qmap (readMounts m entries))"
  by (induction entries arbitrary: m) (simp_all add: sorted_assign)

lemma keys_readMounts:
  "set (keys_qmap (readMounts m entries)) = set (keys_qmap m) \<union> set (map mnt_dir entries)"
  by (induction entries arbitrary: m) (auto simp: keys_assign)

lemma distinct_mountedDevices: "distinct (keys_qmap (mountedDevices entries))"
proof -
  have "sorted_wrt (<) (keys_qmap (mountedDevices entries))"
    unfolding mountedDevices_def by (rule sorted_readMounts) (simp add: keys_qmap_def)
  then show ?thesis by (simp add: strict_sorted_iff)
qed

lemma keys_mountedDevices:
  "set (keys_qmap (mountedDevices entries)) = set (map mnt_dir entries)"
  unfolding mountedDevices_def keys_readMounts by (simp add: keys_qmap_def)

lemma key_iff_map_of: "k \<in> set (keys_qmap m) \<longleftrightarrow> map_of m k \<noteq> None"
  by (simp add: keys_qmap_def map_of_eq_None_iff)

text \<open>Of several entries for one mountpoint, the map keeps the last.\<close>

lemma readMounts_lookup:
  "map_of (readMounts m entries) k =
     (map_of m ++ map_of (rev (map (\<lambda>e. (mnt_dir e, mnt_fsname e)) entries))) k"
proof (induction entries arbitrary: m)
  case Nil
  show ?case by simp
next
  case (Cons e entries)
  show ?case
    by (simp add: Cons.IH) (simp add: map_add_def map_of_assign split: option.splits)
qed

lemma mountedDevices_lookup:
  "map_of (mountedDevices entries) k
     = map_of (rev (map (\<lambda>e. (mnt_dir e, mnt_fsname e)) entries)) k"
  by (simp add: mountedDevices_def readMounts_lookup)

text \<open>Reading \<open>devices[key]\<close> may insert the key, with the value that a lookup with a
  default gives for it anyway.\<close>

lemma index_qmap_value: "fst (index_qmap m key) = value_qmap m key"
  by (simp add: index_qmap_def value_qmap_def split: option.splits)

lemma index_qmap_keeps: "value_qmap (snd (index_qmap m key)) k = value_qmap m k"
  by (auto simp: index_qmap_def value_qmap_def map_of_assign split: option.splits)

lemma addMountpoints_paths:
  "snd (addMountpoints cands keys devices paths) =
     paths @ filter (\<lambda>mp. mp \<in> set cands
                      \<and> value_qmap devices mp \<noteq> value_qmap devices ''/'') keys"
proof (induction keys arbitrary: devices paths)
  case Nil
  show ?case by simp
next
  case (Cons mp keys)
  show ?case
  proof (cases "mp \<in> set cands")
    case False
    then show ?thesis by (simp add: Cons.IH)
  next
    case True
    obtain dev devices1 where d1: "index_qmap devices mp = (dev, devices1)"
      by (cases "index_qmap devices mp")
    obtain root devices2 where d2: "index_qmap devices1 ''/'' = (root, devices2)"
      by (cases "index_qmap devices1 ''/''")
    have dev: "dev = value_qmap devices mp"
      using d1 index_qmap_value [of devices mp] by simp
    have same1: "value_qmap devices1 k = value_qmap devices k" for k
      using d1 index_qmap_keeps [of devices mp k] by simp
    have root: "root = value_qmap devices ''/''"
      using d2 index_qmap_value [of devices1 "''/''"] same1 by simp
    have same2: "value_qmap devices2 k = value_qmap devices k" for k
      using d2 index_qmap_keeps [of devices1 "''/''" k] same1 by simp
    show ?thesis
      using True d1 d2 by (simp add: Cons.IH same2 dev root)
  qed
qed

lemma filter_one:
  "distinct xs \<Longrightarrow>
     filter (\<lambda>x. x \<in> set [a] \<and> Q x) xs = (if a \<in> set xs \<and> Q a then [a] else [])"
  by (induction xs) (auto simp: filter_empty_conv)

lemma workingPaths_eq:
  "workingPaths entries =
     (if onSeparateDevice entries ''/home'' then [''/'', ''/home''] else [''/''])"
  unfolding workingPaths_alt addMountpoints_paths candidates_def onSeparateDevice_def
  using filter_one [OF distinct_mountedDevices, of "''/home''" _ entries]
  by simp

lemma diskUsageModel_eq:
  "diskUsageModel sysinfo (Some entries) =
     Inr (if onSeparateDevice entries ''/home''
          then [rowOf sysinfo ''system'' ''/'', rowOf sysinfo ''user'' ''/home'']
          else [rowOf sysinfo ''mass'' ''/''])"
  by (simp add: diskUsageModel_def workingPaths_eq makeRow_def rowOf_def)

lemmas disk_defs = onSeparateDevice_def mountedDevices_def keys_qmap_def value_qmap_def
  candidates_def rowOf_def index_qmap_def

text \<open>
  Claim C3.  For every candidate mountpoint and every mount table, the candidate is in the
  working list of paths if and only if it is a key of the map of devices built from the
  mount table and its device source differs from the device source of \<open>/\<close>.  A candidate
  for which this fails is in no row of the result; a candidate for which it holds gives
  the two rows \<open>system\<close> for \<open>/\<close> and \<open>user\<close> for the candidate.
\<close>

theorem C3_candidate_included_iff:
  "\<forall>c \<in> set candidates.
     (c \<in> set (workingPaths entries) \<longleftrightarrow> onSeparateDevice entries c)
     \<and> (\<not> onSeparateDevice entries c \<longrightarrow>
          (\<exists>rows. diskUsageModel sysinfo (Some entries) = Inr rows \<and> c \<notin> set (map path rows)))
     \<and> (onSeparateDevice entries c \<longrightarrow>
          diskUsageModel sysinfo (Some entries)
            = Inr [rowOf sysinfo ''system'' ''/'', rowOf sysinfo ''user'' c])"
  by (simp add: candidates_def workingPaths_eq diskUsageModel_eq rowOf_def)

theorem C3_candidate_included_iff_witness:
  "''/home'' \<in> set candidates
   \<and> onSeparateDevice
        [\<lparr>mnt_fsname = ''/dev/mmcblk0p28'', mnt_dir = ''/''\<rparr>,
         \<lparr>mnt_fsname = ''/dev/mmcblk0p29'', mnt_dir = ''/home''\<rparr>] ''/home''
   \<and> ''/home'' \<in> set (workingPaths
        [\<lparr>mnt_fsname = ''/dev/mmcblk0p28'', mnt_dir = ''/''\<rparr>,
         \<lparr>mnt_fsname = ''/dev/mmcblk0p29'', mnt_dir = ''/home''\<rparr>])
   \<and> diskUsageModel \<lparr>availableDiskSpace = (\<lambda>p. 7), totalDiskSpace = (\<lambda>p. 9)\<rparr>
        (Some [\<lparr>mnt_fsname = ''/dev/mmcblk0p28'', mnt_dir = ''/''\<rparr>,
               \<lparr>mnt_fsname = ''/dev/mmcblk0p29'', mnt_dir = ''/home''\<rparr>])
       = Inr [\<lparr>storageType = ''system'', path = ''/'', available = 7, total = 9\<rparr>,
              \<lparr>storageType = ''user'', path = ''/home'', available = 7, total = 9\<rparr>]
   \<and> \<not> onSeparateDevice
        [\<lparr>mnt_fsname = ''/dev/mmcblk0p28'', mnt_dir = ''/''\<rparr>,
         \<lparr>mnt_fsname = ''/dev/mmcblk0p28'', mnt_dir = ''/home''\<rparr>] ''/home''
   \<and> ''/home'' \<notin> set (workingPaths
        [\<lparr>mnt_fsname = ''/dev/mmcblk0p28'', mnt_dir = ''/''\<rparr>,
         \<lparr>mnt_fsname = ''/dev/mmcblk0p28'', mnt_dir = ''/home''\<rparr>])
   \<and> diskUsageModel \<lparr>availableDiskSpace = (\<lambda>p. 7), totalDiskSpace = (\<lambda>p. 9)\<rparr>
        (Some [\<lparr>mnt_fsname = ''/dev/mmcblk0p28'', mnt_dir = ''/''\<rparr>,
               \<lparr>mnt_fsname = ''/dev/mmcblk0p28'', mnt_dir = ''/home''\<rparr>])
       = Inr [\<lparr>storageType = ''mass'', path = ''/'', available = 7, total = 9\<rparr>]"
  using
    C3_candidate_included_iff
      [of "[\<lparr>mnt_fsname = ''/dev/mmcblk0p28'', mnt_dir = ''/''\<rparr>,
            \<lparr>mnt_fsname = ''/dev/mmcblk0p29'', mnt_dir = ''/home''\<rparr>]"
          "\<lparr>availableDiskSpace = (\<lambda>p. 7), totalDiskSpace = (\<lambda>p. 9)\<rparr>"]
    C3_candidate_included_iff
      [of "[\<lparr>mnt_fsname = ''/dev/mmcblk0p28'', mnt_dir = ''/''\<rparr>,
            \<lparr>mnt_fsname = ''/dev/mmcblk0p28'', mnt_dir = ''/home''\<rparr>]"
          "\<lparr>availableDiskSpace = (\<lambda>p. 7), totalDiskSpace = (\<lambda>p. 9)\<rparr>"]
  by (simp add: disk_defs diskUsageModel_def workingPaths_def makeRow_def)

text \<open>
  Claim C4.  The result has one row for each path of the working list.  Where the list has
  exactly one entry, the entry is \<open>/\<close> and the storage type of its row is \<open>mass\<close>;
  otherwise the storage type of the row for \<open>/\<close> is \<open>system\<close> and that of every other row is
  \<open>user\<close>.
\<close>

theorem C4_storage_types:
  "\<exists>rows. diskUsageModel sysinfo (Some entries) = Inr rows
     \<and> map path rows = workingPaths entries
     \<and> (length (workingPaths entries) = 1 \<longrightarrow>
          workingPaths entries = [''/''] \<and> map storageType rows = [''mass''])
     \<and> (length (workingPaths entries) \<noteq> 1 \<longrightarrow>
          (\<forall>r \<in> set rows. storageType r = (if path r = ''/'' then ''system'' else ''user'')))"
  by (simp add: diskUsageModel_eq workingPaths_eq rowOf_def)

theorem C4_storage_types_witness:
  "length (workingPaths [\<lparr>mnt_fsname = ''rootfs'', mnt_dir = ''/''\<rparr>]) = 1
   \<and> diskUsageModel \<lparr>availableDiskSpace = (\<lambda>p. 7), totalDiskSpace = (\<lambda>p. 9)\<rparr>
        (Some [\<lparr>mnt_fsname = ''rootfs'', mnt_dir = ''/''\<rparr>])
       = Inr [\<lparr>storageType = ''mass'', path = ''/'', available = 7, total = 9\<rparr>]
   \<and> length (workingPaths
        [\<lparr>mnt_fsname = ''/dev/mmcblk0p28'', mnt_dir = ''/''\<rparr>,
         \<lparr>mnt_fsname = ''/dev/mmcblk0p29'', mnt_dir = ''/home''\<rparr>]) \<noteq> 1
   \<and> diskUsageModel \<lparr>availableDiskSpace = (\<lambda>p. 7), totalDiskSpace = (\<lambda>p. 9)\<rparr>
        (Some [\<lparr>mnt_fsname = ''/dev/mmcblk0p28'', mnt_dir = ''/''\<rparr>,
               \<lparr>mnt_fsname = ''/dev/mmcblk0p29'', mnt_dir = ''/home''\<rparr>])
       = Inr [\<lparr>storageType = ''system'', path = ''/'', available = 7, total = 9\<rparr>,
              \<lparr>storageType = ''user'', path = ''/home'', available = 7, total = 9\<rparr>]"
  using
    C4_storage_types
      [of "\<lparr>availableDiskSpace = (\<lambda>p. 7), totalDiskSpace = (\<lambda>p. 9)\<rparr>"
          "[\<lparr>mnt_fsname = ''rootfs'', mnt_dir = ''/''\<rparr>]"]
    C4_storage_types
      [of "\<lparr>availableDiskSpace = (\<lambda>p. 7), totalDiskSpace = (\<lambda>p. 9)\<rparr>"
          "[\<lparr>mnt_fsname = ''/dev/mmcblk0p28'', mnt_dir = ''/''\<rparr>,
            \<lparr>mnt_fsname = ''/dev/mmcblk0p29'', mnt_dir = ''/home''\<rparr>]"]
  by (simp add: disk_defs diskUsageModel_def workingPaths_def makeRow_def)

lemma home_mounted: "onSeparateDevice entries mp \<Longrightarrow> mp \<in> set (map mnt_dir entries)"
  using keys_mountedDevices [of entries] by (simp add: onSeparateDevice_def)

text \<open>
  Claim C6.  The rows of the result are one for each path of the working list, in its
  order; \<open>/\<close> comes first and occurs once, no path occurs twice, and the paths after
  \<open>/\<close> are candidates, in the order in which the mount table lists them.
\<close>

theorem C6_rows_follow_paths:
  "\<exists>rows. diskUsageModel sysinfo (Some entries) = Inr rows
     \<and> map path rows = workingPaths entries
     \<and> hd (map path rows) = ''/''
     \<and> count_list (map path rows) ''/'' = 1
     \<and> distinct (map path rows)
     \<and> set (tl (map path rows)) \<subseteq> set candidates
     \<and> subseq (tl (map path rows)) (map mnt_dir entries)"
proof (cases "onSeparateDevice entries ''/home''")
  case True
  then have "''/home'' \<in> set (map mnt_dir entries)" by (rule home_mounted)
  then have "subseq [''/home''] (map mnt_dir entries)" by (simp add: subseq_singleton_left)
  with True show ?thesis
    by (simp add: diskUsageModel_eq workingPaths_eq rowOf_def candidates_def)
next
  case False
  then show ?thesis
    by (simp add: diskUsageModel_eq workingPaths_eq rowOf_def)
qed

theorem C6_rows_follow_paths_witness:
  "diskUsageModel \<lparr>availableDiskSpace = (\<lambda>p. 7), totalDiskSpace = (\<lambda>p. 9)\<rparr>
        (Some [\<lparr>mnt_fsname = ''/dev/mmcblk0p29'', mnt_dir = ''/home''\<rparr>,
               \<lparr>mnt_fsname = ''tmpfs'', mnt_dir = ''/tmp''\<rparr>,
               \<lparr>mnt_fsname = ''/dev/mmcblk0p28'', mnt_dir = ''/''\<rparr>])
       = Inr [\<lparr>storageType = ''system'', path = ''/'', available = 7, total = 9\<rparr>,
              \<lparr>storageType = ''user'', path = ''/home'', available = 7, total = 9\<rparr>]
   \<and> workingPaths [\<lparr>mnt_fsname = ''/dev/mmcblk0p29'', mnt_dir = ''/home''\<rparr>,
               \<lparr>mnt_fsname = ''tmpfs'', mnt_dir = ''/tmp''\<rparr>,
               \<lparr>mnt_fsname = ''/dev/mmcblk0p28'', mnt_dir = ''/''\<rparr>] = [''/'', ''/home'']"
  using
    C6_rows_follow_paths
      [of "\<lparr>availableDiskSpace = (\<lambda>p. 7), totalDiskSpace = (\<lambda>p. 9)\<rparr>"
          "[\<lparr>mnt_fsname = ''/dev/mmcblk0p29'', mnt_dir = ''/home''\<rparr>,
            \<lparr>mnt_fsname = ''tmpfs'', mnt_dir = ''/tmp''\<rparr>,
            \<lparr>mnt_fsname = ''/dev/mmcblk0p28'', mnt_dir = ''/''\<rparr>]"]
  by (simp add: disk_defs diskUsageModel_def workingPaths_def makeRow_def)

text \<open>
  Claim C10.  Where \<open>/\<close> is not a key of the map of devices, the source reads the empty
  string as the device source of \<open>/\<close>, and every candidate that is a key with a device
  source other than the empty string has its row in the result, after the row for \<open>/\<close>.
\<close>

theorem C10_root_not_mounted:
  assumes "map_of (mountedDevices entries) ''/'' = None"
  shows "fst (index_qmap (mountedDevices entries) ''/'') = []
    \<and> (\<forall>c \<in> set candidates. \<forall>dev.
          map_of (mountedDevices entries) c = Some dev \<and> dev \<noteq> [] \<longrightarrow>
          diskUsageModel sysinfo (Some entries)
            = Inr [rowOf sysinfo ''system'' ''/'', rowOf sysinfo ''user'' c])"
proof -
  have root: "value_qmap (mountedDevices entries) ''/'' = []"
    using assms by (simp add: value_qmap_def)
  have "onSeparateDevice entries ''/home''"
    if "map_of (mountedDevices entries) ''/home'' = Some dev" and "dev \<noteq> []" for dev
    using that root by (simp add: onSeparateDevice_def key_iff_map_of value_qmap_def)
  then show ?thesis
    using root by (auto simp: index_qmap_value candidates_def diskUsageModel_eq)
qed

theorem C10_root_not_mounted_witness:
  "map_of (mountedDevices [\<lparr>mnt_fsname = ''/dev/mmcblk0p29'', mnt_dir = ''/home''\<rparr>]) ''/'' = None
   \<and> ''/home'' \<in> set candidates
   \<and> map_of (mountedDevices [\<lparr>mnt_fsname = ''/dev/mmcblk0p29'', mnt_dir = ''/home''\<rparr>]) ''/home''
       = Some ''/dev/mmcblk0p29''
   \<and> ''/dev/mmcblk0p29'' \<noteq> []
   \<and> fst (index_qmap (mountedDevices [\<lparr>mnt_fsname = ''/dev/mmcblk0p29'', mnt_dir = ''/home''\<rparr>]) ''/'') = []
   \<and> diskUsageModel \<lparr>availableDiskSpace = (\<lambda>p. 7), totalDiskSpace = (\<lambda>p. 9)\<rparr>
        (Some [\<lparr>mnt_fsname = ''/dev/mmcblk0p29'', mnt_dir = ''/home''\<rparr>])
       = Inr [\<lparr>storageType = ''system'', path = ''/'', available = 7, total = 9\<rparr>,
              \<lparr>storageType = ''user'', path = ''/home'', available = 7, total = 9\<rparr>]"
  using
    C10_root_not_mounted
      [of "[\<lparr>mnt_fsname = ''/dev/mmcblk0p29'', mnt_dir = ''/home''\<rparr>]"
          "\<lparr>availableDiskSpace = (\<lambda>p. 7), totalDiskSpace = (\<lambda>p. 9)\<rparr>"]
  by (simp add: disk_defs diskUsageModel_def workingPaths_def makeRow_def)

end
